theory Spec2Isabelle
  imports Main
begin

section \<open>The resilient request executor of the Instantly client\<close>

text \<open>
  This theory embeds \<^verbatim>\<open>InstantlyClient.request\<close> of \<^verbatim>\<open>src/index.ts\<close>: the retry
  loop every endpoint wrapper of the client goes through. The HTTP library is a parameter:
  a function that, given the request configuration and the number of calls made before,
  says how the call settles. Whatever the method does besides returning (the HTTP calls,
  the two kinds of console output, the timers it waits for) is recorded, in order, in a
  trace of events.

  JavaScript numbers are modelled as mathematical integers together with \<open>NaN\<close>, which is
  what \<^verbatim>\<open>parseInt\<close> produces. The program computes in doubles: they hold every integer
  of magnitude below \<open>2^53\<close> exactly, round above it and overflow to \<^verbatim>\<open>Infinity\<close>. The
  arithmetic below is the program's arithmetic as long as every operand and result is such
  a safe integer (\<open>safe_integer\<close>), and a statement about the value of a delay carries
  that bound as a hypothesis. Strings are lists of code units below 256, which is how a
  header value reaches the program.
\<close>

subsection \<open>JavaScript values\<close>

datatype jsnum = Num int | NaN

datatype jsval =
    Undefined
  | Null
  | Bool bool
  | Number int
  | Str string
  | Arr "jsval list"
  | Obj "(string \<times> jsval) list"



text \<open>The comparison \<^verbatim>\<open>a < b\<close>: false as soon as one side is \<open>NaN\<close>.\<close>

fun js_lt :: "jsnum \<Rightarrow> jsnum \<Rightarrow> bool" where
  "js_lt (Num a) (Num b) = (a < b)"
| "js_lt _ _ = False"

text \<open>
  The product and the power are the exact ones: they are what the program computes when
  operands and result are safe integers, and nothing is claimed of them beyond.
\<close>

fun js_mul :: "jsnum \<Rightarrow> jsnum \<Rightarrow> jsnum" where
  "js_mul (Num a) (Num b) = Num (a * b)"
| "js_mul _ _ = NaN"

text \<open>
  \<^verbatim>\<open>Math.pow(base, k)\<close> for an exponent that is a natural number, the only kind the
  loop passes; \<^verbatim>\<open>Math.pow(NaN, 0)\<close> is \<open>1\<close>.
\<close>

fun js_pow :: "jsnum \<Rightarrow> nat \<Rightarrow> jsnum" where
  "js_pow (Num b) k = Num (b ^ k)"
| "js_pow NaN k = (if k = 0 then Num 1 else NaN)"

text \<open>\<^verbatim>\<open>Math.min(a, b)\<close>: \<open>NaN\<close> if either argument is.\<close>

fun js_min :: "jsnum \<Rightarrow> jsnum \<Rightarrow> jsnum" where
  "js_min (Num a) (Num b) = Num (min a b)"
| "js_min _ _ = NaN"

text \<open>Truthiness, as \<^verbatim>\<open>||\<close> tests it.\<close>

fun truthy :: "jsval \<Rightarrow> bool" where
  "truthy Undefined = False"
| "truthy Null = False"
| "truthy (Bool b) = b"
| "truthy (Number n) = (n \<noteq> 0)"
| "truthy (Str s) = (s \<noteq> [])"
| "truthy (Arr xs) = True"
| "truthy (Obj kvs) = True"

definition js_or :: "jsval \<Rightarrow> jsval \<Rightarrow> jsval" where
  "js_or a b = (if truthy a then a else b)"

text \<open>
  The optional property read \<^verbatim>\<open>v?.k\<close>, for the keys \<^verbatim>\<open>error\<close> and
  \<^verbatim>\<open>message\<close>, which no primitive and no array has: only an object can hold them.
  An object is the list of its own properties, each key once.
\<close>

fun get_prop :: "jsval \<Rightarrow> string \<Rightarrow> jsval" where
  "get_prop (Obj kvs) k = (case map_of kvs k of None \<Rightarrow> Undefined | Some v \<Rightarrow> v)"
| "get_prop _ k = Undefined"

subsection \<open>Numbers and values as text\<close>

definition digit_char :: "nat \<Rightarrow> char" where
  "digit_char d = char_of (48 + d)"

function show_nat :: "nat \<Rightarrow> string" where
  "show_nat n = (if n < 10 then [digit_char n] else show_nat (n div 10) @ [digit_char (n mod 10)])"
  by pat_completeness auto
termination
  by (relation "measure id") auto

declare show_nat.simps [simp del]

definition show_int :: "int \<Rightarrow> string" where
  "show_int i = (if i < 0 then CHR ''-'' # show_nat (nat (- i)) else show_nat (nat i))"

fun show_jsnum :: "jsnum \<Rightarrow> string" where
  "show_jsnum (Num i) = show_int i"
| "show_jsnum NaN = ''NaN''"

fun join_comma :: "string list \<Rightarrow> string" where
  "join_comma [] = []"
| "join_comma [s] = s"
| "join_comma (s # t # ss) = s @ '','' @ join_comma (t # ss)"

text \<open>
  The conversion a template literal applies to an interpolated value. An array is the
  comma-separated conversion of its elements, with nothing for \<^verbatim>\<open>null\<close> and
  \<^verbatim>\<open>undefined\<close>; a plain object is the fixed text \<^verbatim>\<open>[object Object]\<close>. A number is
  an integer printed in decimal, as the program prints integers of magnitude below \<open>10^21\<close>.
\<close>

fun js_to_string :: "jsval \<Rightarrow> string" where
  "js_to_string Undefined = ''undefined''"
| "js_to_string Null = ''null''"
| "js_to_string (Bool b) = (if b then ''true'' else ''false'')"
| "js_to_string (Number n) = show_int n"
| "js_to_string (Str s) = s"
| "js_to_string (Arr xs) =
     join_comma (map (\<lambda>x. if x = Undefined \<or> x = Null then [] else js_to_string x) xs)"
| "js_to_string (Obj kvs) = ''[object Object]''"

subsection \<open>\<^verbatim>\<open>parseInt\<close> without a radix\<close>

definition is_ws :: "char \<Rightarrow> bool" where
  "is_ws c = (c \<in> set [CHR 0x09, CHR 0x0A, CHR 0x0B, CHR 0x0C, CHR 0x0D, CHR 0x20, CHR 0xA0])"

definition digit_val :: "char \<Rightarrow> nat option" where
  "digit_val c =
     (let n = (of_char c :: nat) in
      if 48 \<le> n \<and> n \<le> 57 then Some (n - 48)
      else if 97 \<le> n \<and> n \<le> 122 then Some (n - 87)
      else if 65 \<le> n \<and> n \<le> 90 then Some (n - 55)
      else None)"

definition radix_digit :: "nat \<Rightarrow> char \<Rightarrow> nat option" where
  "radix_digit R c = (case digit_val c of None \<Rightarrow> None | Some d \<Rightarrow> if d < R then Some d else None)"

definition strip_sign :: "string \<Rightarrow> bool \<times> string" where
  "strip_sign s =
     (case s of
        [] \<Rightarrow> (False, s)
      | c # t \<Rightarrow> if c = CHR ''-'' then (True, t) else if c = CHR ''+'' then (False, t) else (False, s))"

definition strip_prefix :: "string \<Rightarrow> nat \<times> string" where
  "strip_prefix s =
     (case s of
        c # x # t \<Rightarrow>
          if c = CHR ''0'' \<and> (x = CHR ''x'' \<or> x = CHR ''X'') then (16, t) else (10, s)
      | _ \<Rightarrow> (10, s))"

definition digits_value :: "nat \<Rightarrow> string \<Rightarrow> nat" where
  "digits_value R ds =
     foldl (\<lambda>acc c. acc * R + (case radix_digit R c of None \<Rightarrow> 0 | Some d \<Rightarrow> d)) 0 ds"

text \<open>
  Leading white space is skipped, a sign and a \<^verbatim>\<open>0x\<close> prefix are read, then the
  longest run of digits of the radix; with no digit at all the result is \<open>NaN\<close>.
  Among the code units below 256 the white space is the ASCII one and the no-break space.
  The value of the digits is the exact one, which is the program's result when it is a safe
  integer.
\<close>

definition parseInt :: "string \<Rightarrow> jsnum" where
  "parseInt s =
     (case strip_sign (dropWhile is_ws s) of
        (neg, s2) \<Rightarrow>
          (case strip_prefix s2 of
             (R, s3) \<Rightarrow>
               (let ds = takeWhile (\<lambda>c. radix_digit R c \<noteq> None) s3 in
                if ds = [] then NaN
                else Num ((if neg then - 1 else 1) * int (digits_value R ds)))))"

subsection \<open>The retry configuration, the client, and what the HTTP library returns\<close>

text \<open>
  \<^verbatim>\<open>retryConfig\<close>: four results of \<^verbatim>\<open>parseInt\<close> on an environment variable or
  on its default.
\<close>

record retry_config =
  maxAttempts :: jsnum
  initialDelay :: jsnum
  maxDelay :: jsnum
  backoffFactor :: jsnum


record client =
  apiKey :: string
  baseUrl :: string

record response =
  status :: int
  statusText :: string
  data :: jsval
  headers :: "string \<Rightarrow> string option"

text \<open>
  The error a rejected call carries: the response, if one was received, and a message.
  The method passes no status validation of its own to the HTTP library, so a call resolves
  exactly when the response has a 2xx status and is rejected otherwise.
\<close>

record axios_error =
  response :: "response option"
  message :: string

datatype outcome = Resolved response | Rejected axios_error

record axios_config =
  cfg_method :: string
  cfg_url :: string
  cfg_headers :: "(string \<times> string) list"
  cfg_data :: jsval
  cfg_params :: jsval

text \<open>The object \<^verbatim>\<open>errorDetails\<close> that is written to the error stream.\<close>

record error_details =
  d_endpoint :: string
  d_method :: string
  d_url :: string
  d_attempt :: nat
  d_status :: "int option"
  d_statusText :: "string option"
  d_responseData :: jsval
  d_message :: string

text \<open>
  The events of a run. \<open>Sleep d\<close> is a wait on a timer started with the delay \<open>d\<close>, the
  second argument of \<^verbatim>\<open>setTimeout\<close>.
\<close>

datatype event =
    HttpCall axios_config
  | ConsoleError error_details
  | ConsoleLog string
  | Sleep jsnum

text \<open>
  What \<^verbatim>\<open>request\<close> throws: an \<^verbatim>\<open>Error\<close> with a message, or the
  \<^verbatim>\<open>TypeError\<close> of reading a property of \<^verbatim>\<open>undefined\<close>.
\<close>

datatype js_error = Error string | TypeError

subsection \<open>The body of the \<^verbatim>\<open>catch\<close> block\<close>

datatype control = Throw js_error | Break | Next

text \<open>\<^verbatim>\<open>error.response?.status\<close>: nothing when no response was received.\<close>

definition status_of :: "axios_error \<Rightarrow> int option" where
  "status_of error = map_option status (response error)"

definition retry_after_header :: "axios_error \<Rightarrow> string" where
  "retry_after_header error =
     (case response error of
        None \<Rightarrow> ''60''
      | Some r \<Rightarrow> (case headers r ''retry-after'' of
                    None \<Rightarrow> ''60''
                  | Some h \<Rightarrow> if h = [] then ''60'' else h))"

definition backoff_delay :: "retry_config \<Rightarrow> nat \<Rightarrow> jsnum" where
  "backoff_delay rc attempt =
     js_min (js_mul (initialDelay rc) (js_pow (backoffFactor rc) (attempt - 1))) (maxDelay rc)"

definition errorDetails :: "string \<Rightarrow> string \<Rightarrow> string \<Rightarrow> nat \<Rightarrow> axios_error \<Rightarrow> error_details" where
  "errorDetails endpoint method url attempt error =
     \<lparr> d_endpoint = endpoint,
       d_method = method,
       d_url = url,
       d_attempt = attempt,
       d_status = status_of error,
       d_statusText = map_option statusText (response error),
       d_responseData = (case response error of None \<Rightarrow> Undefined | Some r \<Rightarrow> data r),
       d_message = message error \<rparr>"

text \<open>
  The statements of the \<^verbatim>\<open>catch\<close> block after \<^verbatim>\<open>attempt++\<close>, in their
  order; \<open>attempt\<close> is the incremented counter. \<open>Next\<close> stands for both ways of reaching
  the loop test again: \<^verbatim>\<open>continue\<close> and the end of the block.
\<close>

definition catch_body ::
  "retry_config \<Rightarrow> string \<Rightarrow> string \<Rightarrow> string \<Rightarrow> nat \<Rightarrow> axios_error \<Rightarrow> event list \<times> control" where
  "catch_body rc endpoint method url attempt error =
     (let st = status_of error;
          logged = ConsoleError (errorDetails endpoint method url attempt error)
      in
      if st = Some 404 then ([logged], Throw (Error (''Endpoint not found: '' @ endpoint)))
      else if st = Some 401 then ([logged], Throw (Error ''Invalid API key''))
      else if st = Some 429 \<and> js_lt (Num (int attempt)) (maxAttempts rc) then
        (let retryAfter = js_mul (parseInt (retry_after_header error)) (Num 1000) in
         ([logged,
           ConsoleLog (''Rate limited. Waiting '' @ show_jsnum retryAfter @ ''ms before retry...''),
           Sleep retryAfter], Next))
      else if (case st of None \<Rightarrow> False | Some s \<Rightarrow> s < 500) then ([logged], Break)
      else if js_lt (Num (int attempt)) (maxAttempts rc) then
        (let delay = backoff_delay rc attempt in
         ([logged,
           ConsoleLog (''Retrying in '' @ show_jsnum delay @ ''ms... (Attempt '' @ show_nat attempt
                       @ ''/'' @ show_jsnum (maxAttempts rc) @ '')''),
           Sleep delay], Next))
      else ([logged], Next))"

subsection \<open>The terminal error\<close>

definition api_error :: "axios_error \<Rightarrow> jsval" where
  "api_error lastError =
     (let d = (case response lastError of None \<Rightarrow> Undefined | Some r \<Rightarrow> data r) in
      js_or (js_or (get_prop d ''error'') (get_prop d ''message'')) (Str (message lastError)))"

definition terminal_error :: "nat \<Rightarrow> axios_error option \<Rightarrow> js_error" where
  "terminal_error attempt lastError =
     (case lastError of
        None \<Rightarrow> TypeError
      | Some e \<Rightarrow>
          Error (''Instantly API error after '' @ show_nat attempt @ '' attempts: ''
                 @ js_to_string (api_error e)))"

subsection \<open>The loop and the method\<close>

function request_loop ::
  "retry_config \<Rightarrow> string \<Rightarrow> string \<Rightarrow> string \<Rightarrow> axios_config \<Rightarrow> (axios_config \<Rightarrow> nat \<Rightarrow> outcome)
     \<Rightarrow> nat \<Rightarrow> axios_error option \<Rightarrow> event list \<times> (js_error + jsval)" where
  "request_loop rc endpoint method url cfg axios attempt lastError =
     (if js_lt (Num (int attempt)) (maxAttempts rc) then
        (case axios cfg attempt of
           Resolved r \<Rightarrow> ([HttpCall cfg], Inr (data r))
         | Rejected error \<Rightarrow>
             (case catch_body rc endpoint method url (Suc attempt) error of
                (evs, Throw e) \<Rightarrow> (HttpCall cfg # evs, Inl e)
              | (evs, Break) \<Rightarrow>
                  (HttpCall cfg # evs, Inl (terminal_error (Suc attempt) (Some error)))
              | (evs, Next) \<Rightarrow>
                  (case request_loop rc endpoint method url cfg axios (Suc attempt) (Some error) of
                     (evs', res) \<Rightarrow> (HttpCall cfg # evs @ evs', res))))
      else ([], Inl (terminal_error attempt lastError)))"
  by pat_completeness auto
termination
  by (relation "measure (\<lambda>(rc, endpoint, method, url, cfg, axios, attempt, lastError).
         case maxAttempts rc of Num m \<Rightarrow> nat (m - int attempt) | NaN \<Rightarrow> 0)")
     (auto split: jsnum.splits)

text \<open>
  The argument of the HTTP call: the payload travels as query parameters of a
  \<^verbatim>\<open>GET\<close> and as the body of any other method.
\<close>

definition request_config :: "client \<Rightarrow> string \<Rightarrow> string \<Rightarrow> jsval \<Rightarrow> axios_config" where
  "request_config this endpoint method payload =
     \<lparr> cfg_method = method,
       cfg_url = baseUrl this @ endpoint,
       cfg_headers = [(''Content-Type'', ''application/json''),
                      (''Authorization'', ''Bearer '' @ apiKey this)],
       cfg_data = (if method \<noteq> ''GET'' then payload else Undefined),
       cfg_params = (if method = ''GET'' then payload else Undefined) \<rparr>"

definition request ::
  "retry_config \<Rightarrow> client \<Rightarrow> (axios_config \<Rightarrow> nat \<Rightarrow> outcome) \<Rightarrow> string \<Rightarrow> string \<Rightarrow> jsval
     \<Rightarrow> event list \<times> (js_error + jsval)" where
  "request rc this axios endpoint method payload =
     request_loop rc endpoint method (baseUrl this @ endpoint)
       (request_config this endpoint method payload) axios 0 None"

subsection \<open>Reading a trace\<close>

fun is_call :: "event \<Rightarrow> bool" where
  "is_call (HttpCall c) = True"
| "is_call _ = False"

fun is_log :: "event \<Rightarrow> bool" where
  "is_log (ConsoleError d) = True"
| "is_log (ConsoleLog s) = True"
| "is_log _ = False"

definition calls :: "event list \<Rightarrow> nat" where
  "calls tr = length (filter is_call tr)"

fun sleeps :: "event list \<Rightarrow> jsnum list" where
  "sleeps [] = []"
| "sleeps (Sleep d # es) = d # sleeps es"
| "sleeps (e # es) = sleeps es"

definition logs :: "event list \<Rightarrow> event list" where
  "logs tr = filter is_log tr"

text \<open>
  For each HTTP call of a trace, in order, the events that follow it up to the next call:
  entry \<open>k\<close> is what happened after the call number \<open>k + 1\<close> and before the following one.
\<close>

fun after_calls :: "event list \<Rightarrow> event list list" where
  "after_calls [] = []"
| "after_calls (e # es) =
     (if is_call e then takeWhile (\<lambda>x. \<not> is_call x) es # after_calls es else after_calls es)"

subsection \<open>Classifying how an attempt settles\<close>

text \<open>
  A transient failure is a rejection without a response, with status 429, or with a status
  of 500 or more; a fatal one is a rejection with any other status below 500.
\<close>

definition transient :: "outcome \<Rightarrow> bool" where
  "transient out =
     (case out of
        Resolved r \<Rightarrow> False
      | Rejected e \<Rightarrow> (case status_of e of None \<Rightarrow> True | Some s \<Rightarrow> s = 429 \<or> 500 \<le> s))"

definition fatal :: "outcome \<Rightarrow> bool" where
  "fatal out =
     (case out of
        Resolved r \<Rightarrow> False
      | Rejected e \<Rightarrow> (case status_of e of None \<Rightarrow> False | Some s \<Rightarrow> s < 500 \<and> s \<noteq> 429))"

text \<open>A server-side or network-level failure: no response, or a status of 500 or more.\<close>

definition server_or_network :: "outcome \<Rightarrow> bool" where
  "server_or_network out =
     (case out of
        Resolved r \<Rightarrow> False
      | Rejected e \<Rightarrow> (case status_of e of None \<Rightarrow> True | Some s \<Rightarrow> 500 \<le> s))"

definition rate_limited :: "outcome \<Rightarrow> bool" where
  "rate_limited out = (case out of Resolved r \<Rightarrow> False | Rejected e \<Rightarrow> status_of e = Some 429)"

definition starts_call :: "event list \<Rightarrow> bool" where
  "starts_call tr = (case tr of [] \<Rightarrow> True | e # es \<Rightarrow> is_call e)"

text \<open>\<^verbatim>\<open>String.prototype.startsWith\<close> and \<^verbatim>\<open>includes\<close>.\<close>

fun startsWith :: "string \<Rightarrow> string \<Rightarrow> bool" where
  "startsWith s [] = True"
| "startsWith [] (p # ps) = False"
| "startsWith (c # cs) (p # ps) = (c = p \<and> startsWith cs ps)"

fun str_includes :: "string \<Rightarrow> string \<Rightarrow> bool" where
  "str_includes [] p = (p = [])"
| "str_includes (c # cs) p = (startsWith (c # cs) p \<or> str_includes cs p)"

subsection \<open>Scenarios\<close>

text \<open>
  Concrete inputs on which the theorems below are exercised: a policy, a client, error
  objects as the HTTP library builds them, and a transport that replays a list of outcomes
  and then settles every further call the same way.
\<close>

definition scenario_policy :: retry_config where
  "scenario_policy =
     \<lparr> maxAttempts = Num 3, initialDelay = Num 100, maxDelay = Num 1000, backoffFactor = Num 2 \<rparr>"

definition scenario_client :: client where
  "scenario_client = \<lparr> apiKey = ''secret-key'', baseUrl = ''https://api.instantly.ai/api/v2'' \<rparr>"

definition http_error :: "int \<Rightarrow> string option \<Rightarrow> jsval \<Rightarrow> axios_error" where
  "http_error s ra body =
     \<lparr> response = Some \<lparr> status = s, statusText = [], data = body,
                          headers = (\<lambda>k. if k = ''retry-after'' then ra else None) \<rparr>,
       message = ''Request failed with status code '' @ show_int s \<rparr>"

definition network_error :: axios_error where
  "network_error = \<lparr> response = None, message = ''Network Error'' \<rparr>"

definition ok_response :: response where
  "ok_response =
     \<lparr> status = 200, statusText = ''OK'', data = Obj [(''ok'', Bool True)], headers = (\<lambda>k. None) \<rparr>"

definition replay :: "outcome list \<Rightarrow> outcome \<Rightarrow> axios_config \<Rightarrow> nat \<Rightarrow> outcome" where
  "replay outs final c n = (if n < length outs then outs ! n else final)"


section \<open>Properties of traces and of the loop\<close>

subsection \<open>Traces\<close>

lemma calls_simps [simp]:
  "calls [] = 0"
  "calls (e # es) = (if is_call e then Suc (calls es) else calls es)"
  "calls (xs @ ys) = calls xs + calls ys"
  by (simp_all add: calls_def)

lemma sleeps_append [simp]: "sleeps (xs @ ys) = sleeps xs @ sleeps ys"
  by (induction xs rule: sleeps.induct) simp_all

lemma length_after_calls: "length (after_calls tr) = calls tr"
  by (induction tr) simp_all

lemma takeWhile_segment:
  "calls xs = 0 \<Longrightarrow> starts_call ys \<Longrightarrow> takeWhile (\<lambda>x. \<not> is_call x) (xs @ ys) = xs"
  by (induction xs) (auto simp: starts_call_def split: list.splits if_splits)

lemma takeWhile_before_call:
  "starts_call ys \<Longrightarrow> takeWhile (\<lambda>x. \<not> is_call x) (xs @ ys) = takeWhile (\<lambda>x. \<not> is_call x) xs"
  by (induction xs) (auto simp: starts_call_def split: list.splits)

lemma after_calls_append:
  "starts_call ys \<Longrightarrow> after_calls (xs @ ys) = after_calls xs @ after_calls ys"
  by (induction xs) (simp_all add: takeWhile_before_call)

lemma after_calls_no_call: "calls xs = 0 \<Longrightarrow> after_calls xs = []"
  by (induction xs) (auto split: if_splits)

subsection \<open>One pass through the \<^verbatim>\<open>catch\<close> block\<close>

lemma catch_body_calls [simp]: "calls (fst (catch_body rc ep me url a e)) = 0"
  by (simp add: catch_body_def Let_def)

lemma catch_body_Next_transient:
  "snd (catch_body rc ep me url a e) = Next \<Longrightarrow> transient (Rejected e)"
  by (auto simp: catch_body_def Let_def transient_def status_of_def split: if_splits option.splits)

lemma catch_body_no_sleep:
  "snd (catch_body rc ep me url a e) \<noteq> Next \<or> \<not> js_lt (Num (int a)) (maxAttempts rc)
     \<Longrightarrow> sleeps (fst (catch_body rc ep me url a e)) = []"
  by (auto simp: catch_body_def Let_def split: if_splits)

lemma catch_body_transient:
  "transient (Rejected e) \<Longrightarrow> js_lt (Num (int a)) (maxAttempts rc)
     \<Longrightarrow> snd (catch_body rc ep me url a e) = Next"
  by (auto simp: catch_body_def Let_def transient_def status_of_def split: option.splits)

lemma catch_body_fatal:
  "fatal (Rejected e) \<Longrightarrow> snd (catch_body rc ep me url a e) \<noteq> Next"
  by (auto simp: catch_body_def Let_def fatal_def status_of_def split: option.splits)

lemma catch_body_429:
  "status_of e = Some 429 \<Longrightarrow> js_lt (Num (int a)) (maxAttempts rc)
     \<Longrightarrow> sleeps (fst (catch_body rc ep me url a e)) = [js_mul (parseInt (retry_after_header e)) (Num 1000)]"
  by (auto simp: catch_body_def Let_def status_of_def)

lemma catch_body_backoff:
  "(case status_of e of None \<Rightarrow> True | Some s \<Rightarrow> 500 \<le> s) \<Longrightarrow> js_lt (Num (int a)) (maxAttempts rc)
     \<Longrightarrow> sleeps (fst (catch_body rc ep me url a e)) = [backoff_delay rc a]"
  by (auto simp: catch_body_def Let_def status_of_def split: option.splits)

subsection \<open>Unfolding the loop\<close>

declare request_loop.simps [simp del]

lemma loop_exit:
  "\<not> js_lt (Num (int a)) (maxAttempts rc)
     \<Longrightarrow> request_loop rc ep me url cfg axios a le = ([], Inl (terminal_error a le))"
  by (subst request_loop.simps) simp

lemma loop_resolved:
  "js_lt (Num (int a)) (maxAttempts rc) \<Longrightarrow> axios cfg a = Resolved r
     \<Longrightarrow> request_loop rc ep me url cfg axios a le = ([HttpCall cfg], Inr (data r))"
  by (subst request_loop.simps) simp

lemma loop_throw:
  "js_lt (Num (int a)) (maxAttempts rc) \<Longrightarrow> axios cfg a = Rejected e
     \<Longrightarrow> snd (catch_body rc ep me url (Suc a) e) = Throw x
     \<Longrightarrow> request_loop rc ep me url cfg axios a le
           = (HttpCall cfg # fst (catch_body rc ep me url (Suc a) e), Inl x)"
  by (subst request_loop.simps) (auto split: prod.splits)

lemma loop_break:
  "js_lt (Num (int a)) (maxAttempts rc) \<Longrightarrow> axios cfg a = Rejected e
     \<Longrightarrow> snd (catch_body rc ep me url (Suc a) e) = Break
     \<Longrightarrow> request_loop rc ep me url cfg axios a le
           = (HttpCall cfg # fst (catch_body rc ep me url (Suc a) e),
              Inl (terminal_error (Suc a) (Some e)))"
  by (subst request_loop.simps) (auto split: prod.splits)

lemma loop_next:
  "js_lt (Num (int a)) (maxAttempts rc) \<Longrightarrow> axios cfg a = Rejected e
     \<Longrightarrow> snd (catch_body rc ep me url (Suc a) e) = Next
     \<Longrightarrow> request_loop rc ep me url cfg axios a le
           = (HttpCall cfg # fst (catch_body rc ep me url (Suc a) e)
                @ fst (request_loop rc ep me url cfg axios (Suc a) (Some e)),
              snd (request_loop rc ep me url cfg axios (Suc a) (Some e)))"
  by (subst request_loop.simps) (auto split: prod.splits)

lemma loop_starts_call: "starts_call (fst (request_loop rc ep me url cfg axios a le))"
  by (subst request_loop.simps)
     (simp add: starts_call_def split: outcome.splits prod.splits control.splits)

lemma loop_calls_pos:
  "js_lt (Num (int a)) (maxAttempts rc) \<Longrightarrow> 0 < calls (fst (request_loop rc ep me url cfg axios a le))"
  by (subst request_loop.simps)
     (simp split: outcome.splits prod.splits control.splits)

lemma loop_calls_one:
  assumes "js_lt (Num (int a)) (maxAttempts rc)" "\<not> transient (axios cfg a)"
  shows "calls (fst (request_loop rc ep me url cfg axios a le)) = 1"
proof (cases "axios cfg a")
  case (Resolved r)
  with assms show ?thesis by (simp add: loop_resolved)
next
  case (Rejected e)
  with assms have "snd (catch_body rc ep me url (Suc a) e) \<noteq> Next"
    using catch_body_Next_transient by metis
  then show ?thesis
    using assms Rejected
    by (cases "snd (catch_body rc ep me url (Suc a) e)") (simp_all add: loop_throw loop_break)
qed

lemma loop_made:
  "j < calls (fst (request_loop rc ep me url cfg axios a le))
     \<Longrightarrow> js_lt (Num (int (a + j))) (maxAttempts rc) \<and> (\<forall>i<j. transient (axios cfg (a + i)))"
proof (induction j arbitrary: a le)
  case 0
  then show ?case by (cases "js_lt (Num (int a)) (maxAttempts rc)") (simp_all add: loop_exit)
next
  case (Suc j)
  have lt: "js_lt (Num (int a)) (maxAttempts rc)"
    using Suc.prems by (cases "js_lt (Num (int a)) (maxAttempts rc)") (simp_all add: loop_exit)
  have tr: "transient (axios cfg a)"
    using Suc.prems loop_calls_one [where axios = axios and cfg = cfg and le = le and ep = ep and me = me and url = url, OF lt] by auto
  then obtain e where e: "axios cfg a = Rejected e"
    by (cases "axios cfg a") (simp_all add: transient_def)
  show ?case
  proof (cases "js_lt (Num (int (Suc a))) (maxAttempts rc)")
    case True
    with tr e have nx: "snd (catch_body rc ep me url (Suc a) e) = Next"
      by (simp add: catch_body_transient)
    from Suc.prems have "j < calls (fst (request_loop rc ep me url cfg axios (Suc a) (Some e)))"
      by (simp add: loop_next [where axios = axios and cfg = cfg, OF lt e nx])
    from Suc.IH [OF this]
    have ih: "js_lt (Num (int (Suc a + j))) (maxAttempts rc)"
         "\<forall>i<j. transient (axios cfg (Suc a + i))" by simp_all
    have "\<forall>i<Suc j. transient (axios cfg (a + i))"
    proof (intro allI impI)
      fix i assume "i < Suc j"
      then show "transient (axios cfg (a + i))"
        using tr ih(2) by (cases i) simp_all
    qed
    with ih(1) show ?thesis by simp
  next
    case False
    have "calls (fst (request_loop rc ep me url cfg axios a le)) = 1"
    proof (cases "snd (catch_body rc ep me url (Suc a) e)")
      case (Throw x)
      then show ?thesis by (simp add: loop_throw [where axios = axios and cfg = cfg, OF lt e])
    next
      case Break
      then show ?thesis by (simp add: loop_break [where axios = axios and cfg = cfg, OF lt e])
    next
      case Next
      then show ?thesis using False by (simp add: loop_next [where axios = axios and cfg = cfg, OF lt e] loop_exit)
    qed
    with Suc.prems show ?thesis by simp
  qed
qed

lemma loop_prefix:
  "js_lt (Num (int (a + n))) (maxAttempts rc) \<Longrightarrow> \<forall>j<n. transient (axios cfg (a + j))
     \<Longrightarrow> \<exists>pre le'. request_loop rc ep me url cfg axios a le
            = (pre @ fst (request_loop rc ep me url cfg axios (a + n) le'),
               snd (request_loop rc ep me url cfg axios (a + n) le'))
          \<and> calls pre = n \<and> length (sleeps pre) = n"
proof (induction n arbitrary: a le)
  case 0
  show ?case by (rule exI [of _ "[]"], rule exI [of _ le]) simp
next
  case (Suc n)
  obtain m where m: "maxAttempts rc = Num m"
    using Suc.prems(1) by (cases "maxAttempts rc") simp_all
  have lt: "js_lt (Num (int a)) (maxAttempts rc)" and lt1: "js_lt (Num (int (Suc a))) (maxAttempts rc)"
    using Suc.prems(1) m by simp_all
  have tr: "transient (axios cfg a)" using Suc.prems(2) [rule_format, of 0] by simp
  then obtain e where e: "axios cfg a = Rejected e"
    by (cases "axios cfg a") (simp_all add: transient_def)
  have nx: "snd (catch_body rc ep me url (Suc a) e) = Next"
    using tr e lt1 by (simp add: catch_body_transient)
  have sl: "length (sleeps (fst (catch_body rc ep me url (Suc a) e))) = 1"
    using tr e lt1 catch_body_429 [of e "Suc a" rc ep me url] catch_body_backoff [of e "Suc a" rc ep me url]
    by (auto simp: transient_def split: option.splits)
  have "js_lt (Num (int (Suc a + n))) (maxAttempts rc)" using Suc.prems(1) by simp
  moreover have "\<forall>j<n. transient (axios cfg (Suc a + j))"
    using Suc.prems(2) by (metis Suc_less_eq add_Suc_shift)
  ultimately obtain pre le' where
    p: "request_loop rc ep me url cfg axios (Suc a) (Some e)
          = (pre @ fst (request_loop rc ep me url cfg axios (Suc a + n) le'),
             snd (request_loop rc ep me url cfg axios (Suc a + n) le'))"
       "calls pre = n" "length (sleeps pre) = n"
    using Suc.IH [of "Suc a" "Some e"] by blast
  show ?case
    by (rule exI [of _ "HttpCall cfg # fst (catch_body rc ep me url (Suc a) e) @ pre"],
        rule exI [of _ le'])
       (simp add: loop_next [where axios = axios and cfg = cfg, OF lt e nx] p sl)
qed


lemma loop_segment:
  assumes lt: "js_lt (Num (int a)) (maxAttempts rc)" and e: "axios cfg a = Rejected e"
  shows "after_calls (fst (request_loop rc ep me url cfg axios a le)) ! 0
           = fst (catch_body rc ep me url (Suc a) e)"
proof (cases "snd (catch_body rc ep me url (Suc a) e)")
  case (Throw x)
  then show ?thesis
    using takeWhile_segment [of "fst (catch_body rc ep me url (Suc a) e)" "[]"]
    by (simp add: loop_throw [where axios = axios and cfg = cfg, OF lt e] starts_call_def)
next
  case Break
  then show ?thesis
    using takeWhile_segment [of "fst (catch_body rc ep me url (Suc a) e)" "[]"]
    by (simp add: loop_break [where axios = axios and cfg = cfg, OF lt e] starts_call_def)
next
  case Next
  then show ?thesis
    by (simp add: loop_next [where axios = axios and cfg = cfg, OF lt e]
                  takeWhile_segment loop_starts_call)
qed

lemma loop_continues:
  assumes lt: "js_lt (Num (int (Suc a))) (maxAttempts rc)" and e: "axios cfg a = Rejected e"
    and tr: "transient (Rejected e)"
  shows "1 < calls (fst (request_loop rc ep me url cfg axios a le))"
proof -
  have lt0: "js_lt (Num (int a)) (maxAttempts rc)"
    using lt by (cases "maxAttempts rc") simp_all
  have nx: "snd (catch_body rc ep me url (Suc a) e) = Next"
    using tr lt by (rule catch_body_transient)
  show ?thesis
    using loop_calls_pos [where axios = axios and cfg = cfg and ep = ep and me = me and url = url and le = "Some e", OF lt]
    by (simp add: loop_next [where axios = axios and cfg = cfg, OF lt0 e nx])
qed

lemma loop_stops:
  assumes lt: "js_lt (Num (int a)) (maxAttempts rc)" and e: "axios cfg a = Rejected e"
    and stop: "snd (catch_body rc ep me url (Suc a) e) \<noteq> Next
               \<or> \<not> js_lt (Num (int (Suc a))) (maxAttempts rc)"
  shows "calls (fst (request_loop rc ep me url cfg axios a le)) = 1"
    and "sleeps (fst (request_loop rc ep me url cfg axios a le)) = []"
    and "snd (request_loop rc ep me url cfg axios a le)
           = (case snd (catch_body rc ep me url (Suc a) e) of
                Throw x \<Rightarrow> Inl x
              | Break \<Rightarrow> Inl (terminal_error (Suc a) (Some e))
              | Next \<Rightarrow> Inl (terminal_error (Suc a) (Some e)))"
proof -
  have ns: "sleeps (fst (catch_body rc ep me url (Suc a) e)) = []"
    using stop by (rule catch_body_no_sleep)
  show "calls (fst (request_loop rc ep me url cfg axios a le)) = 1"
    and "sleeps (fst (request_loop rc ep me url cfg axios a le)) = []"
    and "snd (request_loop rc ep me url cfg axios a le)
           = (case snd (catch_body rc ep me url (Suc a) e) of
                Throw x \<Rightarrow> Inl x
              | Break \<Rightarrow> Inl (terminal_error (Suc a) (Some e))
              | Next \<Rightarrow> Inl (terminal_error (Suc a) (Some e)))"
    using stop ns
    by (cases "snd (catch_body rc ep me url (Suc a) e)";
        simp add: loop_throw [where axios = axios and cfg = cfg, OF lt e]
                  loop_break [where axios = axios and cfg = cfg, OF lt e]
                  loop_next [where axios = axios and cfg = cfg, OF lt e] loop_exit)+
qed

text \<open>Reaching attempt number \<open>n + 1\<close> from the start of the loop.\<close>

lemma loop_reach:
  assumes "js_lt (Num (int n)) (maxAttempts rc)" "\<forall>j<n. transient (axios cfg j)"
  obtains pre le' where
    "request_loop rc ep me url cfg axios 0 le
       = (pre @ fst (request_loop rc ep me url cfg axios n le'),
          snd (request_loop rc ep me url cfg axios n le'))"
    "calls pre = n" "length (sleeps pre) = n"
  using loop_prefix [where a = 0 and n = n and rc = rc and axios = axios and cfg = cfg and ep = ep and me = me and url = url and le = le] assms by auto

lemma after_calls_reach:
  assumes "calls pre = n" "starts_call t" "0 < calls t"
  shows "after_calls (pre @ t) ! n = after_calls t ! 0"
    and "last (after_calls (pre @ t)) = last (after_calls t)"
proof -
  have l: "length (after_calls pre) = n" "after_calls t \<noteq> []"
    using assms length_after_calls [of pre] length_after_calls [of t] by auto
  show "after_calls (pre @ t) ! n = after_calls t ! 0"
    using l by (simp add: after_calls_append [OF assms(2)] nth_append)
  show "last (after_calls (pre @ t)) = last (after_calls t)"
    using l by (simp add: after_calls_append [OF assms(2)])
qed

lemma loop_not_TypeError:
  "snd (request_loop rc ep me url cfg axios a le) = Inl TypeError
     \<Longrightarrow> le = None \<and> \<not> js_lt (Num (int a)) (maxAttempts rc)"
proof (induction rc ep me url cfg axios a le rule: request_loop.induct)
  case (1 rc ep me url cfg axios a le)
  show ?case
  proof (cases "js_lt (Num (int a)) (maxAttempts rc)")
    case False
    with "1.prems" show ?thesis
      by (simp add: loop_exit terminal_error_def split: option.splits)
  next
    case lt: True
    show ?thesis
    proof (cases "axios cfg a")
      case (Resolved r)
      with lt "1.prems" show ?thesis by (simp add: loop_resolved)
    next
      case (Rejected e)
      show ?thesis
      proof (cases "snd (catch_body rc ep me url (Suc a) e)")
        case (Throw x)
        have "x \<noteq> TypeError"
          using Throw by (auto simp: catch_body_def Let_def split: if_splits)
        with "1.prems" Throw show ?thesis
          by (simp add: loop_throw [where axios = axios and cfg = cfg, OF lt Rejected])
      next
        case Break
        with "1.prems" show ?thesis
          by (simp add: loop_break [where axios = axios and cfg = cfg, OF lt Rejected]
                        terminal_error_def)
      next
        case Next
        with "1.prems" have
          "snd (request_loop rc ep me url cfg axios (Suc a) (Some e)) = Inl TypeError"
          by (simp add: loop_next [where axios = axios and cfg = cfg, OF lt Rejected])
        with "1.IH" [OF lt Rejected _ Next, of "fst (catch_body rc ep me url (Suc a) e)"] Next
        show ?thesis by (cases "catch_body rc ep me url (Suc a) e") simp
      qed
    qed
  qed
qed

lemma loop_logs_cfg:
  assumes "\<forall>n. axios cfg n = axios cfg' n"
  shows "logs (fst (request_loop rc ep me url cfg axios a le))
           = logs (fst (request_loop rc ep me url cfg' axios a le))"
  using assms
proof (induction rc ep me url cfg axios a le rule: request_loop.induct)
  case (1 rc ep me url cfg axios a le)
  show ?case
  proof (cases "js_lt (Num (int a)) (maxAttempts rc)")
    case False
    then show ?thesis by (simp add: loop_exit)
  next
    case lt: True
    show ?thesis
    proof (cases "axios cfg a")
      case (Resolved r)
      then have "axios cfg' a = Resolved r" using "1.prems" by simp
      with Resolved lt show ?thesis by (simp add: loop_resolved logs_def)
    next
      case (Rejected e)
      then have e': "axios cfg' a = Rejected e" using "1.prems" by simp
      show ?thesis
      proof (cases "snd (catch_body rc ep me url (Suc a) e)")
        case (Throw x)
        then show ?thesis
          by (simp add: loop_throw [where axios = axios and cfg = cfg, OF lt Rejected]
                        loop_throw [where axios = axios and cfg = cfg', OF lt e'] logs_def)
      next
        case Break
        then show ?thesis
          by (simp add: loop_break [where axios = axios and cfg = cfg, OF lt Rejected]
                        loop_break [where axios = axios and cfg = cfg', OF lt e'] logs_def)
      next
        case Next
        have "logs (fst (request_loop rc ep me url cfg axios (Suc a) (Some e)))
                = logs (fst (request_loop rc ep me url cfg' axios (Suc a) (Some e)))"
          using "1.IH" [OF lt Rejected _ Next, of "fst (catch_body rc ep me url (Suc a) e)"]
                Next "1.prems"
          by (cases "catch_body rc ep me url (Suc a) e") simp
        then show ?thesis
          using Next
          by (simp add: loop_next [where axios = axios and cfg = cfg, OF lt Rejected]
                        loop_next [where axios = axios and cfg = cfg', OF lt e'] logs_def)
      qed
    qed
  qed
qed

lemma sleeps_takeWhile: "sleeps es = [] \<Longrightarrow> sleeps (takeWhile P es) = []"
  by (induction es rule: sleeps.induct) (auto split: if_splits)

lemma sleeps_after_calls:
  "sleeps t = [] \<Longrightarrow> seg \<in> set (after_calls t) \<Longrightarrow> sleeps seg = []"
proof (induction t)
  case Nil
  then show ?case by simp
next
  case (Cons e es)
  then show ?case by (cases e) (auto simp: sleeps_takeWhile split: if_splits)
qed

lemma loop_single_no_sleep:
  assumes "calls (fst (request_loop rc ep me url cfg axios a le)) = 1"
  shows "sleeps (fst (request_loop rc ep me url cfg axios a le)) = []"
proof -
  have lt: "js_lt (Num (int a)) (maxAttempts rc)"
    using assms by (cases "js_lt (Num (int a)) (maxAttempts rc)") (simp_all add: loop_exit)
  show ?thesis
  proof (cases "axios cfg a")
    case (Resolved r)
    with lt show ?thesis by (simp add: loop_resolved)
  next
    case (Rejected e)
    have "snd (catch_body rc ep me url (Suc a) e) \<noteq> Next
          \<or> \<not> js_lt (Num (int (Suc a))) (maxAttempts rc)"
    proof (rule ccontr)
      assume "\<not> ?thesis"
      then have nx: "snd (catch_body rc ep me url (Suc a) e) = Next"
        and lt1: "js_lt (Num (int (Suc a))) (maxAttempts rc)" by simp_all
      have "transient (Rejected e)" using nx by (rule catch_body_Next_transient)
      with loop_continues [where axios = axios and cfg = cfg and le = le and ep = ep
                             and me = me and url = url, OF lt1 Rejected] assms
      show False by simp
    qed
    then show ?thesis
      by (rule loop_stops(2) [where axios = axios and cfg = cfg, OF lt Rejected])
  qed
qed

lemma catch_body_transient_cases:
  "transient (Rejected e)
     \<Longrightarrow> snd (catch_body rc ep me url a e) = Next \<or> snd (catch_body rc ep me url a e) = Break"
  by (auto simp: catch_body_def Let_def transient_def status_of_def split: option.splits)

lemma catch_body_break:
  "status_of e = Some s \<Longrightarrow> s < 500 \<Longrightarrow> s \<noteq> 404 \<Longrightarrow> s \<noteq> 401 \<Longrightarrow> s \<noteq> 429
     \<Longrightarrow> catch_body rc ep me url a e = ([ConsoleError (errorDetails ep me url a e)], Break)"
  by (simp add: catch_body_def Let_def)

subsection \<open>Runs of the method\<close>

text \<open>Reaching the attempt number \<open>n + 1\<close>: every earlier attempt failed in a way that is retried.\<close>

lemma request_reach:
  assumes "js_lt (Num (int n)) (maxAttempts rc)"
    and "\<forall>j<n. transient (axios (request_config this ep me p) j)"
  obtains pre le' where
    "request rc this axios ep me p
       = (pre @ fst (request_loop rc ep me (baseUrl this @ ep) (request_config this ep me p) axios n le'),
          snd (request_loop rc ep me (baseUrl this @ ep) (request_config this ep me p) axios n le'))"
    "calls pre = n" "length (sleeps pre) = n"
  using loop_reach [where axios = axios and cfg = "request_config this ep me p" and n = n
                      and rc = rc and ep = ep and me = me and url = "baseUrl this @ ep"
                      and le = None, OF assms]
  unfolding request_def by blast

text \<open>What is known of the attempt number \<open>k + 1\<close> of a run once it has been made.\<close>

lemma request_made:
  assumes "k < calls (fst (request rc this axios ep me p))"
  obtains pre le' where
    "request rc this axios ep me p
       = (pre @ fst (request_loop rc ep me (baseUrl this @ ep) (request_config this ep me p) axios k le'),
          snd (request_loop rc ep me (baseUrl this @ ep) (request_config this ep me p) axios k le'))"
    "calls pre = k" "length (sleeps pre) = k"
    "js_lt (Num (int k)) (maxAttempts rc)"
    "\<forall>i<k. transient (axios (request_config this ep me p) i)"
proof -
  have m: "js_lt (Num (int k)) (maxAttempts rc)"
          "\<forall>i<k. transient (axios (request_config this ep me p) i)"
    using loop_made [where axios = axios and cfg = "request_config this ep me p" and a = 0
                       and j = k and rc = rc and ep = ep and me = me
                       and url = "baseUrl this @ ep" and le = None] assms
    by (simp_all add: request_def)
  show ?thesis
    using request_reach [where axios = axios, OF m] that m by blast
qed

text \<open>The events between attempt \<open>n + 1\<close> and the next one, when the attempt is reached, fails
  in a way that is retried and is not the last one allowed.\<close>

lemma retry_sleep:
  assumes lt: "js_lt (Num (int (Suc n))) (maxAttempts rc)"
    and reach: "\<forall>j<n. transient (axios (request_config this ep me p) j)"
    and e: "axios (request_config this ep me p) n = Rejected e"
    and tr: "transient (Rejected e)"
  shows "after_calls (fst (request rc this axios ep me p)) ! n
           = fst (catch_body rc ep me (baseUrl this @ ep) (Suc n) e)"
    and "Suc n < calls (fst (request rc this axios ep me p))"
proof -
  let ?cfg = "request_config this ep me p"
  let ?url = "baseUrl this @ ep"
  have lt0: "js_lt (Num (int n)) (maxAttempts rc)"
    using lt by (cases "maxAttempts rc") simp_all
  obtain pre le' where
    pre: "request rc this axios ep me p
            = (pre @ fst (request_loop rc ep me ?url ?cfg axios n le'),
               snd (request_loop rc ep me ?url ?cfg axios n le'))"
      "calls pre = n"
    using request_reach [where axios = axios, OF lt0 reach] by metis
  let ?t = "fst (request_loop rc ep me ?url ?cfg axios n le')"
  have more: "1 < calls ?t"
    using lt e tr by (rule loop_continues [where axios = axios and cfg = ?cfg])
  have "after_calls (pre @ ?t) ! n = after_calls ?t ! 0"
    using pre(2) loop_starts_call more by (intro after_calls_reach(1)) simp_all
  also have "\<dots> = fst (catch_body rc ep me ?url (Suc n) e)"
    using lt0 e by (rule loop_segment [where axios = axios and cfg = ?cfg])
  finally show "after_calls (fst (request rc this axios ep me p)) ! n
                  = fst (catch_body rc ep me ?url (Suc n) e)"
    by (simp add: pre(1))
  show "Suc n < calls (fst (request rc this axios ep me p))"
    using more pre(2) by (simp add: pre(1))
qed

text \<open>The run in which every allowed attempt fails in a way that is retried.\<close>

lemma request_exhausted:
  assumes "maxAttempts rc = Num (int m)" and "1 \<le> m"
    and "\<forall>k<m. transient (axios (request_config this ep me p) k)"
    and "axios (request_config this ep me p) (m - 1) = Rejected e"
  shows "calls (fst (request rc this axios ep me p)) = m"
    and "snd (request rc this axios ep me p) = Inl (terminal_error m (Some e))"
    and "sleeps (after_calls (fst (request rc this axios ep me p)) ! (m - 1)) = []"
    and "length (sleeps (fst (request rc this axios ep me p))) = m - 1"
proof -
  let ?cfg = "request_config this ep me p"
  let ?url = "baseUrl this @ ep"
  obtain n where m: "m = Suc n" using assms(2) by (cases m) simp_all
  have lt: "js_lt (Num (int n)) (maxAttempts rc)"
    and nlt: "\<not> js_lt (Num (int (Suc n))) (maxAttempts rc)"
    using assms(1) m by simp_all
  have reach: "\<forall>j<n. transient (axios ?cfg j)" and e: "axios ?cfg n = Rejected e"
    using assms(3,4) m by simp_all
  have tr: "transient (Rejected e)"
    using assms(3) [rule_format, of n] e m by simp
  obtain pre le' where
    pre: "request rc this axios ep me p
            = (pre @ fst (request_loop rc ep me ?url ?cfg axios n le'),
               snd (request_loop rc ep me ?url ?cfg axios n le'))"
      "calls pre = n" "length (sleeps pre) = n"
    using request_reach [where axios = axios, OF lt reach] by metis
  let ?t = "fst (request_loop rc ep me ?url ?cfg axios n le')"
  have stop: "snd (catch_body rc ep me ?url (Suc n) e) \<noteq> Next
              \<or> \<not> js_lt (Num (int (Suc n))) (maxAttempts rc)"
    using nlt by simp
  note st = loop_stops [where axios = axios and cfg = ?cfg and le = le', OF lt e stop]
  have res: "snd (request_loop rc ep me ?url ?cfg axios n le') = Inl (terminal_error (Suc n) (Some e))"
    using st(3) catch_body_transient_cases [OF tr, of rc ep me ?url "Suc n"] by auto
  have "after_calls (pre @ ?t) ! n = after_calls ?t ! 0"
    using pre(2) loop_starts_call st(1) by (intro after_calls_reach(1)) simp_all
  moreover have "after_calls ?t ! 0 \<in> set (after_calls ?t)"
    using st(1) length_after_calls [of ?t] by (intro nth_mem) simp
  ultimately have seg: "sleeps (after_calls (pre @ ?t) ! n) = []"
    using sleeps_after_calls [OF st(2)] by simp
  show "calls (fst (request rc this axios ep me p)) = m"
    using st(1) pre(2) m by (simp add: pre(1))
  show "snd (request rc this axios ep me p) = Inl (terminal_error m (Some e))"
    using res m by (simp add: pre(1))
  show "sleeps (after_calls (fst (request rc this axios ep me p)) ! (m - 1)) = []"
    using seg m by (simp add: pre(1))
  show "length (sleeps (fst (request rc this axios ep me p))) = m - 1"
    using st(2) pre(3) m by (simp add: pre(1))
qed


text \<open>What the loop does with a 429 that is not the last attempt allowed: the delay is the
  \<^verbatim>\<open>retry-after\<close> header read by \<^verbatim>\<open>parseInt\<close>, times 1000, whatever the backoff settings.\<close>

lemma rate_limit_delay:
  assumes "maxAttempts rc = Num m" and "1 \<le> n" and "int n < m"
    and "\<forall>j<n - 1. transient (axios (request_config this ep me p) j)"
    and "axios (request_config this ep me p) (n - 1) = Rejected e"
    and "status_of e = Some 429"
  shows "sleeps (after_calls (fst (request rc this axios ep me p)) ! (n - 1))
           = [js_mul (parseInt (retry_after_header e)) (Num 1000)]"
    and "n < calls (fst (request rc this axios ep me p))"
proof -
  obtain k where n: "n = Suc k" using assms(2) by (cases n) simp_all
  have lt: "js_lt (Num (int (Suc k))) (maxAttempts rc)" using assms(1,3) n by simp
  have reach: "\<forall>j<k. transient (axios (request_config this ep me p) j)"
    and e: "axios (request_config this ep me p) k = Rejected e"
    using assms(4,5) n by simp_all
  have tr: "transient (Rejected e)" using assms(6) by (simp add: transient_def)
  note rs = retry_sleep [where axios = axios, OF lt reach e tr]
  show "sleeps (after_calls (fst (request rc this axios ep me p)) ! (n - 1))
          = [js_mul (parseInt (retry_after_header e)) (Num 1000)]"
    using rs(1) assms(6) lt n by (simp add: catch_body_429)
  show "n < calls (fst (request rc this axios ep me p))" using rs(2) n by simp
qed

text \<open>Without the header, or with an empty one, the delay is 60 seconds.\<close>

lemma retry_after_default:
  "response e = Some r \<Longrightarrow> headers r ''retry-after'' = None \<or> headers r ''retry-after'' = Some []
     \<Longrightarrow> js_mul (parseInt (retry_after_header e)) (Num 1000) = Num 60000"
  by (auto simp: retry_after_header_def parseInt_def strip_sign_def strip_prefix_def is_ws_def
                 radix_digit_def digit_val_def digits_value_def)

text \<open>
  A header of 5 seconds under the policy of the scenarios, whose first backoff delay would
  be 100 milliseconds.
\<close>

lemma retry_after_five_seconds:
  "sleeps (after_calls (fst (request scenario_policy scenario_client
          (replay [Rejected (http_error 429 (Some ''5'') Null)] (Resolved ok_response))
          ''/campaigns'' ''GET'' Undefined)) ! (1 - 1)) = [Num 5000]"
proof -
  let ?e = "http_error 429 (Some ''5'') Null"
  let ?ax = "replay [Rejected ?e] (Resolved ok_response)"
  have h1: "maxAttempts scenario_policy = Num 3" by (simp add: scenario_policy_def)
  have h4: "\<forall>j<1 - 1. transient
              (?ax (request_config scenario_client ''/campaigns'' ''GET'' Undefined) j)"
    by simp
  have h5: "?ax (request_config scenario_client ''/campaigns'' ''GET'' Undefined) (1 - 1)
              = Rejected ?e" by (simp add: replay_def)
  have h6: "status_of ?e = Some 429" by (simp add: status_of_def http_error_def)
  have v: "js_mul (parseInt (retry_after_header ?e)) (Num 1000) = Num 5000" by code_simp
  show ?thesis
    using rate_limit_delay(1) [where axios = ?ax and n = 1, OF h1 _ _ h4 h5 h6] v by simp
qed

text \<open>
  The message of the terminal error after \<open>m\<close> attempts that all failed in a way that is
  retried: the count, then the conversion of the first truthy one among the \<^verbatim>\<open>error\<close>
  field of the last response body, its \<^verbatim>\<open>message\<close> field and the message of the error.
\<close>

lemma exhausted_error_message:
  assumes "maxAttempts rc = Num (int m)" and "1 \<le> m"
    and "\<forall>k<m. transient (axios (request_config this ep me p) k)"
    and "axios (request_config this ep me p) (m - 1) = Rejected e"
    and "body = (case response e of None \<Rightarrow> Undefined | Some r \<Rightarrow> data r)"
  shows "calls (fst (request rc this axios ep me p)) = m
       \<and> snd (request rc this axios ep me p)
           = Inl (Error (''Instantly API error after '' @ show_nat m @ '' attempts: ''
                  @ js_to_string
                      (if truthy (get_prop body ''error'') then get_prop body ''error''
                       else if truthy (get_prop body ''message'') then get_prop body ''message''
                       else Str (message e))))"
  using request_exhausted(1,2) [where axios = axios, OF assms(1-4)] assms(5)
  by (simp add: terminal_error_def api_error_def js_or_def)

text \<open>A cause that is a string ends the message as it is.\<close>

lemma exhausted_string_cause:
  assumes "maxAttempts rc = Num (int m)" and "1 \<le> m"
    and "\<forall>k<m. transient (axios (request_config this ep me p) k)"
    and "axios (request_config this ep me p) (m - 1) = Rejected e"
    and "response e = Some r" and "get_prop (data r) ''error'' = Str c" and "c \<noteq> []"
  shows "snd (request rc this axios ep me p)
           = Inl (Error (''Instantly API error after '' @ show_nat m @ '' attempts: '' @ c))"
  using exhausted_error_message [where axios = axios, OF assms(1-4), of "data r"] assms(5-7)
  by simp

section \<open>The claims\<close>

text \<open>
  Claim C1. Under a policy whose \<open>maxAttempts\<close> is an integer \<open>m\<close> of at least 1,
  \<open>request\<close> makes at least one HTTP call and at most \<open>m\<close>; no sleep follows the last call;
  and an attempt that is classified fatal (a response with status 404, 401 or any other
  status below 500 except 429) is the last call of the run, with no sleep after it.
\<close>

theorem attempts_bounded:
  assumes "maxAttempts rc = Num m" and "1 \<le> m"
  shows "1 \<le> calls (fst (request rc this axios ep me p))
       \<and> int (calls (fst (request rc this axios ep me p))) \<le> m
       \<and> sleeps (last (after_calls (fst (request rc this axios ep me p)))) = []
       \<and> (\<forall>k<calls (fst (request rc this axios ep me p)).
            fatal (axios (request_config this ep me p) k) \<longrightarrow>
              Suc k = calls (fst (request rc this axios ep me p))
              \<and> sleeps (after_calls (fst (request rc this axios ep me p)) ! k) = [])"
proof -
  let ?cfg = "request_config this ep me p"
  let ?url = "baseUrl this @ ep"
  let ?tr = "fst (request rc this axios ep me p)"
  have pos: "1 \<le> calls ?tr"
    using loop_calls_pos [where a = 0 and rc = rc and axios = axios and cfg = ?cfg and ep = ep
                            and me = me and url = ?url and le = None] assms
    by (simp add: request_def)
  define n where "n = calls ?tr - 1"
  have n: "n < calls ?tr" "calls ?tr = Suc n" using pos by (simp_all add: n_def)
  obtain pre le' where
    pre: "request rc this axios ep me p
            = (pre @ fst (request_loop rc ep me ?url ?cfg axios n le'),
               snd (request_loop rc ep me ?url ?cfg axios n le'))"
      "calls pre = n" "js_lt (Num (int n)) (maxAttempts rc)"
    using request_made [OF n(1)] by metis
  let ?t = "fst (request_loop rc ep me ?url ?cfg axios n le')"
  have upper: "int (calls ?tr) \<le> m"
    using pre(3) assms(1) n(2) by simp
  have one: "calls ?t = 1" using n(2) pre(1,2) by simp
  then have quiet: "sleeps ?t = []" by (rule loop_single_no_sleep)
  have "last (after_calls (pre @ ?t)) = last (after_calls ?t)"
    using pre(2) loop_starts_call one by (intro after_calls_reach(2)) simp_all
  moreover have "after_calls ?t \<noteq> []"
    using one length_after_calls [of ?t] by auto
  ultimately have final: "sleeps (last (after_calls ?tr)) = []"
    using sleeps_after_calls [OF quiet] by (simp add: pre(1))
  have fatal_last: "Suc k = calls ?tr \<and> sleeps (after_calls ?tr ! k) = []"
    if k: "k < calls ?tr" and f: "fatal (axios ?cfg k)" for k
  proof -
    obtain pre' le'' where
      pre': "request rc this axios ep me p
              = (pre' @ fst (request_loop rc ep me ?url ?cfg axios k le''),
                 snd (request_loop rc ep me ?url ?cfg axios k le''))"
        "calls pre' = k" "js_lt (Num (int k)) (maxAttempts rc)"
      using request_made [OF k] by metis
    let ?s = "fst (request_loop rc ep me ?url ?cfg axios k le'')"
    have nt: "\<not> transient (axios ?cfg k)"
      using f by (auto simp: fatal_def transient_def split: outcome.splits option.splits)
    have c1: "calls ?s = 1"
      using pre'(3) nt by (rule loop_calls_one [where axios = axios and cfg = ?cfg])
    then have q: "sleeps ?s = []" by (rule loop_single_no_sleep)
    have "after_calls (pre' @ ?s) ! k = after_calls ?s ! 0"
      using pre'(2) loop_starts_call c1 by (intro after_calls_reach(1)) simp_all
    moreover have "after_calls ?s ! 0 \<in> set (after_calls ?s)"
      using c1 length_after_calls [of ?s] by (intro nth_mem) simp
    ultimately have "sleeps (after_calls ?tr ! k) = []"
      using sleeps_after_calls [OF q] by (simp add: pre'(1))
    moreover have "Suc k = calls ?tr" using c1 pre'(2) by (simp add: pre'(1))
    ultimately show ?thesis by simp
  qed
  show ?thesis using pos upper final fatal_last by blast
qed

theorem attempts_bounded_witness:
  "calls (fst (request scenario_policy scenario_client
           (replay [Rejected (http_error 503 None Null), Rejected (http_error 400 None Null)]
                   (Resolved ok_response)) ''/campaigns'' ''GET'' Undefined)) = 2
   \<and> sleeps (last (after_calls (fst (request scenario_policy scenario_client
           (replay [Rejected (http_error 503 None Null), Rejected (http_error 400 None Null)]
                   (Resolved ok_response)) ''/campaigns'' ''GET'' Undefined)))) = []
   \<and> fatal (replay [Rejected (http_error 503 None Null), Rejected (http_error 400 None Null)]
                   (Resolved ok_response)
                   (request_config scenario_client ''/campaigns'' ''GET'' Undefined) 1)"
proof -
  let ?ax = "replay [Rejected (http_error 503 None Null), Rejected (http_error 400 None Null)]
                    (Resolved ok_response)"
  let ?cfg = "request_config scenario_client ''/campaigns'' ''GET'' Undefined"
  let ?tr = "fst (request scenario_policy scenario_client ?ax ''/campaigns'' ''GET'' Undefined)"
  have h1: "maxAttempts scenario_policy = Num 3" by (simp add: scenario_policy_def)
  have h2: "(1::int) \<le> 3" by simp
  have f: "fatal (?ax ?cfg 1)"
    by (simp add: replay_def fatal_def status_of_def http_error_def)
  note b = attempts_bounded [where axios = ?ax and this = scenario_client and ep = "''/campaigns''"
                              and me = "''GET''" and p = Undefined, OF h1 h2]
  have c: "calls ?tr = 2" by code_simp
  have "1 < calls ?tr" using c by simp
  with b f have "Suc 1 = calls ?tr" by blast
  with b f show ?thesis by simp
qed

text \<open>
  Claim C2. The claim promises a delay of 60 seconds for a \<^verbatim>\<open>retry-after\<close> header
  that cannot be parsed. The default \<^verbatim>\<open>'60'\<close> is substituted only for a missing or empty
  header: a header in the HTTP-date form has no leading digits, \<^verbatim>\<open>parseInt\<close> returns
  \<open>NaN\<close>, and the timer is started with \<open>NaN\<close>. The run below is a 429 carrying such a
  header, with attempts remaining: the delay asked for is \<open>NaN\<close>, not 60000 milliseconds,
  and the console says so.
\<close>

theorem retry_after_http_date:
  "sleeps (fst (request scenario_policy scenario_client
          (replay [Rejected (http_error 429 (Some ''Wed, 21 Oct 2015 07:28:00 GMT'') Null)]
                  (Resolved ok_response)) ''/campaigns'' ''GET'' Undefined)) = [NaN]
   \<and> ConsoleLog ''Rate limited. Waiting NaNms before retry...''
       \<in> set (fst (request scenario_policy scenario_client
          (replay [Rejected (http_error 429 (Some ''Wed, 21 Oct 2015 07:28:00 GMT'') Null)]
                  (Resolved ok_response)) ''/campaigns'' ''GET'' Undefined))"
  by code_simp



text \<open>
  Claim C4, as stated, fails on the text of the messages: the method throws
  \<^verbatim>\<open>Endpoint not found: \<close> followed by the endpoint, and \<^verbatim>\<open>Invalid API key\<close>, both with a
  capital first letter, so the first is not the claimed message and the second does not
  contain the claimed text.
\<close>

theorem fatal_message_counterexample:
  "snd (request scenario_policy scenario_client
          (replay [] (Rejected (http_error 404 None Null))) ''/campaigns'' ''GET'' Undefined)
     = Inl (Error ''Endpoint not found: /campaigns'')
   \<and> ''Endpoint not found: /campaigns'' \<noteq> ''endpoint not found: /campaigns''
   \<and> snd (request scenario_policy scenario_client
          (replay [] (Rejected (http_error 401 None Null))) ''/campaigns'' ''GET'' Undefined)
     = Inl (Error ''Invalid API key'')
   \<and> \<not> str_includes ''Invalid API key'' ''invalid API key''"
  by code_simp

text \<open>
  Claim C4, amended. Under a policy whose \<open>maxAttempts\<close> is an integer of at least 1, a
  response with status 404 or 401 to the first attempt ends the run after exactly one call
  and without a sleep, whatever \<open>maxAttempts\<close> is; the error thrown has the message
  \<^verbatim>\<open>Endpoint not found: \<close> followed by the endpoint for 404, and \<^verbatim>\<open>Invalid API key\<close>
  for 401.
\<close>

theorem not_found_or_unauthorized:
  assumes "maxAttempts rc = Num m" and "1 \<le> m"
    and "axios (request_config this ep me p) 0 = Rejected e"
    and "status_of e = Some 404 \<or> status_of e = Some 401"
  shows "calls (fst (request rc this axios ep me p)) = 1
       \<and> sleeps (fst (request rc this axios ep me p)) = []
       \<and> snd (request rc this axios ep me p)
           = Inl (Error (if status_of e = Some 404 then ''Endpoint not found: '' @ ep
                         else ''Invalid API key''))"
proof -
  let ?cfg = "request_config this ep me p"
  let ?url = "baseUrl this @ ep"
  have lt: "js_lt (Num (int 0)) (maxAttempts rc)" using assms(1,2) by simp
  have th: "snd (catch_body rc ep me ?url (Suc 0) e)
              = Throw (Error (if status_of e = Some 404 then ''Endpoint not found: '' @ ep
                              else ''Invalid API key''))"
    using assms(4) by (auto simp: catch_body_def Let_def)
  then have stop: "snd (catch_body rc ep me ?url (Suc 0) e) \<noteq> Next
                   \<or> \<not> js_lt (Num (int (Suc 0))) (maxAttempts rc)" by simp
  show ?thesis
    using loop_stops [where axios = axios and cfg = ?cfg and le = None, OF lt assms(3) stop] th
    by (simp add: request_def)
qed

theorem not_found_or_unauthorized_witness:
  "calls (fst (request scenario_policy scenario_client
          (replay [] (Rejected (http_error 401 None Null))) ''/campaigns'' ''GET'' Undefined)) = 1
   \<and> sleeps (fst (request scenario_policy scenario_client
          (replay [] (Rejected (http_error 401 None Null))) ''/campaigns'' ''GET'' Undefined)) = []
   \<and> snd (request scenario_policy scenario_client
          (replay [] (Rejected (http_error 401 None Null))) ''/campaigns'' ''GET'' Undefined)
       = Inl (Error ''Invalid API key'')"
proof -
  let ?ax = "replay [] (Rejected (http_error 401 None Null))"
  have h1: "maxAttempts scenario_policy = Num 3" by (simp add: scenario_policy_def)
  have h2: "(1::int) \<le> 3" by simp
  have h3: "?ax (request_config scenario_client ''/campaigns'' ''GET'' Undefined) 0
              = Rejected (http_error 401 None Null)" by (simp add: replay_def)
  have h4: "status_of (http_error 401 None Null) = Some 404
            \<or> status_of (http_error 401 None Null) = Some 401"
    by (simp add: status_of_def http_error_def)
  show ?thesis
    using not_found_or_unauthorized [where axios = ?ax, OF h1 h2 h3 h4]
    by (simp add: status_of_def http_error_def)
qed

text \<open>
  Claim C5, as stated, fails on its first half: a 429 with attempts remaining is retried,
  and it is neither a status of 500 or more nor a failure without a response.
\<close>

theorem retry_on_429_counterexample:
  "calls (fst (request scenario_policy scenario_client
          (replay [Rejected (http_error 429 (Some ''2'') Null)] (Resolved ok_response))
          ''/campaigns'' ''GET'' Undefined)) = 2
   \<and> \<not> server_or_network
         (replay [Rejected (http_error 429 (Some ''2'') Null)] (Resolved ok_response)
            (request_config scenario_client ''/campaigns'' ''GET'' Undefined) 0)"
  by code_simp

text \<open>
  Claim C5, amended. An attempt is followed by another one only if it failed with status
  429, with a status of 500 or more, or without a response. A response with a status below
  500 other than 401, 404 and 429 ends the run at once: the attempt is the last call, no
  sleep follows it, and the terminal error is thrown.
\<close>

theorem retry_classification:
  "(Suc j < calls (fst (request rc this axios ep me p))
      \<longrightarrow> transient (axios (request_config this ep me p) j))
   \<and> (k < calls (fst (request rc this axios ep me p))
      \<and> axios (request_config this ep me p) k = Rejected e
      \<and> status_of e = Some s \<and> s < 500 \<and> s \<noteq> 401 \<and> s \<noteq> 404 \<and> s \<noteq> 429
      \<longrightarrow> Suc k = calls (fst (request rc this axios ep me p))
        \<and> sleeps (after_calls (fst (request rc this axios ep me p)) ! k) = []
        \<and> snd (request rc this axios ep me p)
            = Inl (Error (''Instantly API error after '' @ show_nat (Suc k) @ '' attempts: ''
                          @ js_to_string (api_error e))))"
proof (intro conjI impI)
  assume "Suc j < calls (fst (request rc this axios ep me p))"
  then show "transient (axios (request_config this ep me p) j)"
    using request_made [where axios = axios and k = "Suc j" and rc = rc and this = this
                          and ep = ep and me = me and p = p]
    by (metis lessI)
next
  let ?cfg = "request_config this ep me p"
  let ?url = "baseUrl this @ ep"
  let ?tr = "fst (request rc this axios ep me p)"
  assume a: "k < calls ?tr \<and> axios ?cfg k = Rejected e
             \<and> status_of e = Some s \<and> s < 500 \<and> s \<noteq> 401 \<and> s \<noteq> 404 \<and> s \<noteq> 429"
  then have k: "k < calls ?tr" and e: "axios ?cfg k = Rejected e" by simp_all
  obtain pre le' where
    pre: "request rc this axios ep me p
            = (pre @ fst (request_loop rc ep me ?url ?cfg axios k le'),
               snd (request_loop rc ep me ?url ?cfg axios k le'))"
      "calls pre = k" "js_lt (Num (int k)) (maxAttempts rc)"
    using request_made [OF k] by metis
  let ?t = "fst (request_loop rc ep me ?url ?cfg axios k le')"
  have br: "catch_body rc ep me ?url (Suc k) e
              = ([ConsoleError (errorDetails ep me ?url (Suc k) e)], Break)"
    using a by (intro catch_body_break [where s = s]) simp_all
  then have stop: "snd (catch_body rc ep me ?url (Suc k) e) \<noteq> Next
                   \<or> \<not> js_lt (Num (int (Suc k))) (maxAttempts rc)" by simp
  note st = loop_stops [where axios = axios and cfg = ?cfg and le = le', OF pre(3) e stop]
  have "after_calls (pre @ ?t) ! k = after_calls ?t ! 0"
    using pre(2) loop_starts_call st(1) by (intro after_calls_reach(1)) simp_all
  moreover have "after_calls ?t ! 0 \<in> set (after_calls ?t)"
    using st(1) length_after_calls [of ?t] by (intro nth_mem) simp
  ultimately have seg: "sleeps (after_calls (pre @ ?t) ! k) = []"
    using sleeps_after_calls [OF st(2)] by simp
  show "Suc k = calls ?tr" using st(1) pre(2) by (simp add: pre(1))
  show "sleeps (after_calls ?tr ! k) = []" using seg by (simp add: pre(1))
  show "snd (request rc this axios ep me p)
          = Inl (Error (''Instantly API error after '' @ show_nat (Suc k) @ '' attempts: ''
                        @ js_to_string (api_error e)))"
    using st(3) br by (simp add: pre(1) terminal_error_def)
qed

theorem retry_classification_witness:
  "transient (replay [Rejected network_error, Rejected (http_error 400 None (Obj [(''error'', Str ''bad filter'')]))]
                (Resolved ok_response)
                (request_config scenario_client ''/campaigns'' ''GET'' Undefined) 0)
   \<and> Suc 1 = calls (fst (request scenario_policy scenario_client
          (replay [Rejected network_error, Rejected (http_error 400 None (Obj [(''error'', Str ''bad filter'')]))]
                  (Resolved ok_response)) ''/campaigns'' ''GET'' Undefined))
   \<and> sleeps (after_calls (fst (request scenario_policy scenario_client
          (replay [Rejected network_error, Rejected (http_error 400 None (Obj [(''error'', Str ''bad filter'')]))]
                  (Resolved ok_response)) ''/campaigns'' ''GET'' Undefined)) ! 1) = []
   \<and> snd (request scenario_policy scenario_client
          (replay [Rejected network_error, Rejected (http_error 400 None (Obj [(''error'', Str ''bad filter'')]))]
                  (Resolved ok_response)) ''/campaigns'' ''GET'' Undefined)
       = Inl (Error ''Instantly API error after 2 attempts: bad filter'')"
proof -
  let ?e = "http_error 400 None (Obj [(''error'', Str ''bad filter'')])"
  let ?ax = "replay [Rejected network_error, Rejected ?e] (Resolved ok_response)"
  let ?cfg = "request_config scenario_client ''/campaigns'' ''GET'' Undefined"
  let ?tr = "fst (request scenario_policy scenario_client ?ax ''/campaigns'' ''GET'' Undefined)"
  have c: "calls ?tr = 2" by code_simp
  have h1: "Suc 0 < calls ?tr" and h2: "1 < calls ?tr" using c by simp_all
  have h3: "?ax ?cfg 1 = Rejected ?e" by (simp add: replay_def)
  have h4: "status_of ?e = Some 400" by (simp add: status_of_def http_error_def)
  have t: "''Instantly API error after '' @ show_nat (Suc 1) @ '' attempts: ''
             @ js_to_string (api_error ?e)
           = ''Instantly API error after 2 attempts: bad filter''" by code_simp
  note r = retry_classification [where axios = ?ax and rc = scenario_policy
             and this = scenario_client and ep = "''/campaigns''" and me = "''GET''"
             and p = Undefined and j = 0 and k = 1 and e = ?e and s = 400]
  have first: "transient (?ax ?cfg 0)" using r h1 by blast
  have second: "Suc 1 = calls ?tr \<and> sleeps (after_calls ?tr ! 1) = []
      \<and> snd (request scenario_policy scenario_client ?ax ''/campaigns'' ''GET'' Undefined)
          = Inl (Error (''Instantly API error after '' @ show_nat (Suc 1) @ '' attempts: ''
                        @ js_to_string (api_error ?e)))"
    using r h2 h3 h4 by simp
  show ?thesis using first second unfolding t by blast
qed

text \<open>
  Claim C6. The number of attempts is embedded as claimed, and so is a cause that is a
  string (\<open>exhausted_error_message\<close>, \<open>exhausted_string_cause\<close>). The cause is interpolated
  into a template literal, though, and a cause that is an object becomes the fixed text
  \<^verbatim>\<open>[object Object]\<close>: in the run below every attempt is answered 503 with a body whose
  \<^verbatim>\<open>error\<close> field is an object and whose \<^verbatim>\<open>message\<close> field is a string, and the
  message of the terminal error carries nothing of either, although the console output of
  the same failure prints the whole body.
\<close>

theorem object_cause_not_embedded:
  "calls (fst (request scenario_policy scenario_client
          (replay [] (Rejected (http_error 503 None
             (Obj [(''error'', Obj [(''code'', Number 42), (''detail'', Str ''workspace quota'')]),
                   (''message'', Str ''quota exceeded'')]))))
          ''/campaigns'' ''GET'' Undefined)) = 3
   \<and> snd (request scenario_policy scenario_client
          (replay [] (Rejected (http_error 503 None
             (Obj [(''error'', Obj [(''code'', Number 42), (''detail'', Str ''workspace quota'')]),
                   (''message'', Str ''quota exceeded'')]))))
          ''/campaigns'' ''GET'' Undefined)
       = Inl (Error ''Instantly API error after 3 attempts: [object Object]'')
   \<and> \<not> str_includes ''Instantly API error after 3 attempts: [object Object]'' ''workspace quota''
   \<and> \<not> str_includes ''Instantly API error after 3 attempts: [object Object]'' ''42''
   \<and> \<not> str_includes ''Instantly API error after 3 attempts: [object Object]'' ''quota exceeded''"
proof -
  let ?e = "http_error 503 None
             (Obj [(''error'', Obj [(''code'', Number 42), (''detail'', Str ''workspace quota'')]),
                   (''message'', Str ''quota exceeded'')])"
  let ?ax = "replay [] (Rejected ?e)"
  let ?cfg = "request_config scenario_client ''/campaigns'' ''GET'' Undefined"
  have h1: "maxAttempts scenario_policy = Num (int 3)" by (simp add: scenario_policy_def)
  have h2: "(1::nat) \<le> 3" by simp
  have h3: "\<forall>k<3. transient (?ax ?cfg k)"
    by (simp add: replay_def transient_def status_of_def http_error_def)
  have h4: "?ax ?cfg (3 - 1) = Rejected ?e" by (simp add: replay_def)
  have t: "terminal_error 3 (Some ?e)
             = Error ''Instantly API error after 3 attempts: [object Object]''"
    by code_simp
  have n: "\<not> str_includes ''Instantly API error after 3 attempts: [object Object]'' ''workspace quota''
         \<and> \<not> str_includes ''Instantly API error after 3 attempts: [object Object]'' ''42''
         \<and> \<not> str_includes ''Instantly API error after 3 attempts: [object Object]'' ''quota exceeded''"
    by code_simp
  show ?thesis
    using request_exhausted(1,2) [where axios = ?ax, OF h1 h2 h3 h4] t n by simp
qed

text \<open>
  Claim C7. For every attempt number \<open>k\<close> between 1 and \<open>maxAttempts\<close> that is reached
  (every earlier attempt failed in a way that is retried), a call the HTTP library resolves,
  which it does for a 2xx response, makes \<open>request\<close> return the body of that response
  unchanged; the \<open>k\<close>-th call is the last one and nothing happens after it: no console
  output and no sleep.
\<close>

theorem success_returns_body:
  assumes "maxAttempts rc = Num m" and "1 \<le> k" and "int k \<le> m"
    and "\<forall>j<k - 1. transient (axios (request_config this ep me p) j)"
    and "axios (request_config this ep me p) (k - 1) = Resolved r"
  shows "snd (request rc this axios ep me p) = Inr (data r)
       \<and> calls (fst (request rc this axios ep me p)) = k
       \<and> after_calls (fst (request rc this axios ep me p)) ! (k - 1) = []
       \<and> length (sleeps (fst (request rc this axios ep me p))) = k - 1"
proof -
  let ?cfg = "request_config this ep me p"
  let ?url = "baseUrl this @ ep"
  obtain n where k: "k = Suc n"
    using assms(2) by (cases k) simp_all
  have lt: "js_lt (Num (int n)) (maxAttempts rc)"
    using assms(1,3) k by simp
  have reach: "\<forall>j<n. transient (axios ?cfg j)" and res: "axios ?cfg n = Resolved r"
    using assms(4,5) k by simp_all
  obtain pre le' where
    pre: "request rc this axios ep me p
            = (pre @ fst (request_loop rc ep me ?url ?cfg axios n le'),
               snd (request_loop rc ep me ?url ?cfg axios n le'))"
      "calls pre = n" "length (sleeps pre) = n"
    using request_reach [where axios = axios, OF lt reach] by blast
  have last: "request_loop rc ep me ?url ?cfg axios n le' = ([HttpCall ?cfg], Inr (data r))"
    using lt res by (rule loop_resolved)
  have seg: "after_calls (pre @ [HttpCall ?cfg]) ! n = after_calls [HttpCall ?cfg] ! 0"
    using pre(2) by (intro after_calls_reach) (simp_all add: starts_call_def)
  show ?thesis
    using pre(2,3) seg by (simp add: pre(1) last k)
qed

theorem success_returns_body_witness:
  "maxAttempts scenario_policy = Num 3 \<and> (1::nat) \<le> 3 \<and> int 3 \<le> 3
   \<and> snd (request scenario_policy scenario_client
             (replay [Rejected (http_error 500 None Null), Rejected (http_error 500 None Null)]
                     (Resolved ok_response)) ''/campaigns'' ''GET'' Undefined)
       = Inr (Obj [(''ok'', Bool True)])
   \<and> calls (fst (request scenario_policy scenario_client
             (replay [Rejected (http_error 500 None Null), Rejected (http_error 500 None Null)]
                     (Resolved ok_response)) ''/campaigns'' ''GET'' Undefined)) = 3
   \<and> length (sleeps (fst (request scenario_policy scenario_client
             (replay [Rejected (http_error 500 None Null), Rejected (http_error 500 None Null)]
                     (Resolved ok_response)) ''/campaigns'' ''GET'' Undefined))) = 2"
proof -
  let ?ax = "replay [Rejected (http_error 500 None Null), Rejected (http_error 500 None Null)]
                    (Resolved ok_response)"
  let ?cfg = "request_config scenario_client ''/campaigns'' ''GET'' Undefined"
  have h1: "maxAttempts scenario_policy = Num 3" by (simp add: scenario_policy_def)
  have h2: "(1::nat) \<le> 3" and h3: "int 3 \<le> 3" by simp_all
  have h4: "\<forall>j<3 - 1. transient (?ax ?cfg j)"
    by (simp add: replay_def transient_def status_of_def http_error_def less_Suc_eq numeral_2_eq_2)
  have h5: "?ax ?cfg (3 - 1) = Resolved ok_response" by (simp add: replay_def)
  show ?thesis
    using success_returns_body [where axios = ?ax, OF h1 h2 h3 h4 h5] h1
    by (simp add: ok_response_def)
qed

text \<open>
  Claim C8. The console output of a run does not depend on the API key: two runs that
  differ only in the key, and in which the HTTP calls settle the same way, write the same
  entries, although the key is part of every request sent.
\<close>

theorem log_independent_of_api_key:
  assumes "\<forall>n. axios (request_config (this \<lparr> apiKey := key \<rparr>) ep me p) n
              = axios (request_config (this \<lparr> apiKey := key' \<rparr>) ep me p) n"
  shows "logs (fst (request rc (this \<lparr> apiKey := key \<rparr>) axios ep me p))
       = logs (fst (request rc (this \<lparr> apiKey := key' \<rparr>) axios ep me p))"
  using loop_logs_cfg [where axios = axios, OF assms] by (simp add: request_def)

theorem log_independent_of_api_key_witness:
  "logs (fst (request scenario_policy (scenario_client \<lparr> apiKey := ''key-one'' \<rparr>)
          (replay [Rejected (http_error 429 (Some ''2'') Null), Rejected network_error]
                  (Resolved ok_response)) ''/campaigns'' ''GET'' Undefined))
   = logs (fst (request scenario_policy (scenario_client \<lparr> apiKey := ''key-two'' \<rparr>)
          (replay [Rejected (http_error 429 (Some ''2'') Null), Rejected network_error]
                  (Resolved ok_response)) ''/campaigns'' ''GET'' Undefined))
   \<and> request_config (scenario_client \<lparr> apiKey := ''key-one'' \<rparr>) ''/campaigns'' ''GET'' Undefined
     \<noteq> request_config (scenario_client \<lparr> apiKey := ''key-two'' \<rparr>) ''/campaigns'' ''GET'' Undefined"
proof -
  let ?ax = "replay [Rejected (http_error 429 (Some ''2'') Null), Rejected network_error]
                    (Resolved ok_response)"
  have h: "\<forall>n. ?ax (request_config (scenario_client \<lparr> apiKey := ''key-one'' \<rparr>)
                      ''/campaigns'' ''GET'' Undefined) n
              = ?ax (request_config (scenario_client \<lparr> apiKey := ''key-two'' \<rparr>)
                      ''/campaigns'' ''GET'' Undefined) n"
    by (simp add: replay_def)
  show ?thesis
    using log_independent_of_api_key [where axios = ?ax, OF h]
    by (simp add: request_config_def)
qed

text \<open>
  Claim C9. Under a policy whose \<open>maxAttempts\<close> is an integer of at least 1, at least one
  call is made and reading the last error never fails: the run does not end in the
  \<^verbatim>\<open>TypeError\<close> of dereferencing \<^verbatim>\<open>undefined\<close>. Below 1 the loop body never runs, no
  call is made, and the run ends in exactly that \<^verbatim>\<open>TypeError\<close>.
\<close>

theorem last_error_defined:
  assumes "maxAttempts rc = Num m"
  shows "(1 \<le> m \<longrightarrow> snd (request rc this axios ep me p) \<noteq> Inl TypeError
                    \<and> 1 \<le> calls (fst (request rc this axios ep me p)))
       \<and> (m < 1 \<longrightarrow> snd (request rc this axios ep me p) = Inl TypeError
                    \<and> calls (fst (request rc this axios ep me p)) = 0)"
proof (intro conjI impI)
  assume m: "1 \<le> m"
  then have lt: "js_lt (Num (int 0)) (maxAttempts rc)" using assms by simp
  show "snd (request rc this axios ep me p) \<noteq> Inl TypeError"
    using loop_not_TypeError [where axios = axios and a = 0 and rc = rc] lt
    unfolding request_def by blast
  show "1 \<le> calls (fst (request rc this axios ep me p))"
    using loop_calls_pos [where axios = axios and le = None, OF lt]
    unfolding request_def by (simp add: Suc_leI)
next
  assume "m < 1"
  then have nlt: "\<not> js_lt (Num (int 0)) (maxAttempts rc)" using assms by simp
  show "snd (request rc this axios ep me p) = Inl TypeError"
    and "calls (fst (request rc this axios ep me p)) = 0"
    by (simp_all add: request_def loop_exit [OF nlt] terminal_error_def)
qed

theorem last_error_defined_witness:
  "snd (request scenario_policy scenario_client (replay [] (Rejected network_error))
          ''/campaigns'' ''GET'' Undefined) \<noteq> Inl TypeError
   \<and> snd (request (scenario_policy \<lparr> maxAttempts := Num 0 \<rparr>) scenario_client
            (replay [] (Rejected network_error)) ''/campaigns'' ''GET'' Undefined) = Inl TypeError
   \<and> calls (fst (request (scenario_policy \<lparr> maxAttempts := Num 0 \<rparr>) scenario_client
            (replay [] (Rejected network_error)) ''/campaigns'' ''GET'' Undefined)) = 0"
proof -
  have h1: "maxAttempts scenario_policy = Num 3" by (simp add: scenario_policy_def)
  have h0: "maxAttempts (scenario_policy \<lparr> maxAttempts := Num 0 \<rparr>) = Num 0" by simp
  show ?thesis
    using last_error_defined [OF h1, of scenario_client "replay [] (Rejected network_error)"
                                "''/campaigns''" "''GET''" Undefined]
          last_error_defined [OF h0, of scenario_client "replay [] (Rejected network_error)"
                                "''/campaigns''" "''GET''" Undefined]
    by simp
qed

text \<open>
  Claim C10. A 429 uses up an attempt like any other failure: when each of the \<open>m\<close>
  attempts allowed is answered with 429, \<open>request\<close> makes exactly \<open>m\<close> calls, sleeps
  \<open>m - 1\<close> times, does not sleep after the last 429, and throws the terminal error that
  reports \<open>m\<close> attempts.
\<close>

theorem rate_limit_uses_attempt_budget:
  assumes "maxAttempts rc = Num (int m)" and "1 \<le> m"
    and "\<forall>k<m. rate_limited (axios (request_config this ep me p) k)"
    and "axios (request_config this ep me p) (m - 1) = Rejected e"
  shows "calls (fst (request rc this axios ep me p)) = m
       \<and> snd (request rc this axios ep me p)
           = Inl (Error (''Instantly API error after '' @ show_nat m @ '' attempts: ''
                         @ js_to_string (api_error e)))
       \<and> sleeps (after_calls (fst (request rc this axios ep me p)) ! (m - 1)) = []
       \<and> length (sleeps (fst (request rc this axios ep me p))) = m - 1"
proof -
  have "\<forall>k<m. transient (axios (request_config this ep me p) k)"
    using assms(3) by (auto simp: rate_limited_def transient_def split: outcome.splits)
  from request_exhausted [where axios = axios, OF assms(1,2) this assms(4)]
  show ?thesis by (simp add: terminal_error_def)
qed

theorem rate_limit_uses_attempt_budget_witness:
  "calls (fst (request scenario_policy scenario_client
          (replay [] (Rejected (http_error 429 (Some ''2'') Null)))
          ''/campaigns'' ''GET'' Undefined)) = 3
   \<and> sleeps (after_calls (fst (request scenario_policy scenario_client
          (replay [] (Rejected (http_error 429 (Some ''2'') Null)))
          ''/campaigns'' ''GET'' Undefined)) ! (3 - 1)) = []
   \<and> length (sleeps (fst (request scenario_policy scenario_client
          (replay [] (Rejected (http_error 429 (Some ''2'') Null)))
          ''/campaigns'' ''GET'' Undefined))) = 3 - 1
   \<and> snd (request scenario_policy scenario_client
          (replay [] (Rejected (http_error 429 (Some ''2'') Null)))
          ''/campaigns'' ''GET'' Undefined)
       = Inl (Error ''Instantly API error after 3 attempts: Request failed with status code 429'')"
proof -
  let ?e = "http_error 429 (Some ''2'') Null"
  let ?ax = "replay [] (Rejected ?e)"
  let ?cfg = "request_config scenario_client ''/campaigns'' ''GET'' Undefined"
  have h1: "maxAttempts scenario_policy = Num (int 3)" by (simp add: scenario_policy_def)
  have h2: "(1::nat) \<le> 3" by simp
  have h3: "\<forall>k<3. rate_limited (?ax ?cfg k)"
    by (simp add: replay_def rate_limited_def status_of_def http_error_def)
  have h4: "?ax ?cfg (3 - 1) = Rejected ?e" by (simp add: replay_def)
  have t: "''Instantly API error after '' @ show_nat 3 @ '' attempts: '' @ js_to_string (api_error ?e)
             = ''Instantly API error after 3 attempts: Request failed with status code 429''"
    by code_simp
  show ?thesis
    using rate_limit_uses_attempt_budget [where axios = ?ax, OF h1 h2 h3 h4] t by simp
qed

end
